theory Spec2Isabelle
  imports Complex_Main
begin

section \<open>Exceptions of the modelled code\<close>

text \<open>
  Every \<^verbatim>\<open>raise\<close> and every failing library call that the modelled Python
  can reach is a value of this type; a function that may raise returns
  \<open>error + 'a\<close> with \<open>Inl\<close> the exception.
\<close>

datatype error =
    BackgroundClass      \<comment> \<open>\<^verbatim>\<open>Exception('detected region for background class')\<close>\<close>
  | IndexError           \<comment> \<open>subscript out of range\<close>
  | ValueError           \<comment> \<open>\<^verbatim>\<open>list.remove(x)\<close>: x not in list\<close>
  | ZeroDivisionError    \<comment> \<open>float division by zero\<close>
  | AttributeError       \<comment> \<open>an attribute of \<^verbatim>\<open>None\<close>, or \<^verbatim>\<open>.exterior\<close> of a MultiPolygon\<close>
  | TypeError            \<comment> \<open>subscript of \<^verbatim>\<open>None\<close>\<close>
  | TopologicalError     \<comment> \<open>Shapely: the operation could not be performed on these geometries\<close>

section \<open>Detection de-duplication (classify\_address\_layout.py, lines 203--232)\<close>

text \<open>
  \<^verbatim>\<open>preds\<close> is a dictionary of parallel arrays (\<^verbatim>\<open>class_ids\<close>, \<^verbatim>\<open>scores\<close>,
  \<^verbatim>\<open>masks[:,:,i]\<close>) of one common length; the model transposes it into a list of
  records, detection \<open>i\<close> being element \<open>i\<close>. A mask is the flattened boolean
  raster; all masks of a batch are slices of one array and so have one length.
  Class ids are the detector's non-negative category numbers.
\<close>

record detection =
  class_id :: nat
  score :: real
  mask :: "bool list"

text \<open>\<^verbatim>\<open>np.any(imask * jmask)\<close>: some pixel is foreground in both masks.\<close>

definition masks_overlap :: "bool list \<Rightarrow> bool list \<Rightarrow> bool" where
  "masks_overlap imask jmask = list_ex (\<lambda>(a, b). a \<and> b) (zip imask jmask)"

text \<open>
  Lines 203--209. The inner loop \<^verbatim>\<open>for j in range(i + 1, n)\<close> walks the detections
  after \<open>i\<close>; the outer loop walks \<open>i\<close>. Detections travel with their index.
\<close>

fun worse_inner :: "nat \<times> detection \<Rightarrow> (nat \<times> detection) list \<Rightarrow> nat list \<Rightarrow> nat list" where
  "worse_inner di [] worse = worse"
| "worse_inner (i, di) ((j, dj) # rest) worse =
     worse_inner (i, di) rest
       (if masks_overlap (mask di) (mask dj)
        then worse @ [if score di < score dj then i else j]
        else worse)"

fun worse_outer :: "(nat \<times> detection) list \<Rightarrow> nat list \<Rightarrow> nat list" where
  "worse_outer [] worse = worse"
| "worse_outer (d # rest) worse = worse_outer rest (worse_inner d rest worse)"

definition find_worse :: "detection list \<Rightarrow> nat list" where
  "find_worse preds = worse_outer (enumerate 0 preds) []"

text \<open>
  Lines 210--220: \<^verbatim>\<open>best = np.zeros(4)\<close>, then the best score per class among the
  detections not in \<^verbatim>\<open>worse\<close>, for the classes 1 and 2 only.
\<close>

fun find_best :: "nat list \<Rightarrow> (nat \<times> detection) list \<Rightarrow> real list \<Rightarrow> real list" where
  "find_best worse [] best = best"
| "find_best worse ((i, d) # rest) best =
     find_best worse rest
       (if i \<in> set worse then best
        else if class_id d \<notin> {1, 2} then best
        else if score d > best ! class_id d then best[class_id d := score d]
        else best)"

text \<open>
  Lines 223--324: the loop that annotates the surviving detections. Its body after
  line 232 (vectorisation and region surgery) is the parameter \<open>annotate\<close>, a step on
  a state that may raise. \<^verbatim>\<open>best[cat]\<close> raises IndexError for a class id outside
  the four-element array.
\<close>

fun annotate_loop ::
  "(nat \<Rightarrow> detection \<Rightarrow> 's \<Rightarrow> error + 's) \<Rightarrow> nat list \<Rightarrow> real list \<Rightarrow>
   (nat \<times> detection) list \<Rightarrow> 's \<Rightarrow> error + 's" where
  "annotate_loop annotate worse best [] s = Inr s"
| "annotate_loop annotate worse best ((i, d) # rest) s =
     (if i \<in> set worse then annotate_loop annotate worse best rest s
      else if class_id d = 0 then Inl BackgroundClass
      else if \<not> class_id d < length best then Inl IndexError
      else if score d < best ! class_id d then annotate_loop annotate worse best rest s
      else (case annotate i d s of
              Inl e \<Rightarrow> Inl e
            | Inr s' \<Rightarrow> annotate_loop annotate worse best rest s'))"

definition process_detections ::
  "(nat \<Rightarrow> detection \<Rightarrow> 's \<Rightarrow> error + 's) \<Rightarrow> detection list \<Rightarrow> 's \<Rightarrow> error + 's" where
  "process_detections annotate preds s =
     (let worse = find_worse preds;
          best = find_best worse (enumerate 0 preds) (replicate 4 0)
      in annotate_loop annotate worse best (enumerate 0 preds) s)"

text \<open>
  The detections that reach the annotation step, in order: the loop run with a step
  that only records the index it is called with.
\<close>

definition record_index :: "nat \<Rightarrow> detection \<Rightarrow> nat list \<Rightarrow> error + nat list" where
  "record_index i d kept = Inr (kept @ [i])"

definition kept_detections :: "detection list \<Rightarrow> error + nat list" where
  "kept_detections preds = process_detections record_index preds []"

section \<open>The geometry and image libraries as parameters\<close>

text \<open>
  Shapely and OpenCV are libraries outside the repository. Their operations are
  parameters of the model: a record of functions over an arbitrary type \<open>'p\<close> of
  polygons. Every theorem below holds for every such record. Each field stands for the
  expression of the source given beside it.

  Areas, ratios of areas and the overlap threshold are machine floats. They are values
  of an arbitrary linearly ordered type \<open>'a\<close> with a zero, an addition and a division:
  the operations \<open>+\<close> and \<open>/\<close> on \<open>'a\<close> stand for the float addition and division of the
  machine and obey no law here, so that nothing is proved from exact arithmetic that
  rounding could break. An intersection or a union that Shapely cannot compute (it
  raises TopologicalError, on invalid polygons) is \<open>None\<close>.
\<close>

type_synonym point = "real \<times> real"

record ('p, 'a) geometry =
  area :: "'p \<Rightarrow> 'a"                         \<comment> \<open>\<^verbatim>\<open>p.area\<close>\<close>
  almost_equals :: "'p \<Rightarrow> 'p \<Rightarrow> bool"           \<comment> \<open>\<^verbatim>\<open>p.almost_equals(q)\<close>\<close>
  contains :: "'p \<Rightarrow> 'p \<Rightarrow> bool"                \<comment> \<open>\<^verbatim>\<open>p.contains(q)\<close>\<close>
  overlaps :: "'p \<Rightarrow> 'p \<Rightarrow> bool"                \<comment> \<open>\<^verbatim>\<open>p.overlaps(q)\<close>\<close>
  intersects :: "'p \<Rightarrow> 'p \<Rightarrow> bool"              \<comment> \<open>\<^verbatim>\<open>p.intersects(q)\<close>\<close>
  poly_within :: "'p \<Rightarrow> 'p \<Rightarrow> bool"             \<comment> \<open>\<^verbatim>\<open>p.within(q)\<close>\<close>
  covers_most :: "'p \<Rightarrow> 'p \<Rightarrow> bool"             \<comment> \<open>\<^verbatim>\<open>p.intersection(q).area > 0.8 * p.area\<close>\<close>
  intersection_area :: "'p \<Rightarrow> 'p \<Rightarrow> 'a option"  \<comment> \<open>\<^verbatim>\<open>p.intersection(q).area\<close>\<close>
  union_hull_area :: "'p \<Rightarrow> 'p \<Rightarrow> 'a option"    \<comment> \<open>\<^verbatim>\<open>p.union(q).convex_hull.area\<close>\<close>
  union_exterior :: "'p \<Rightarrow> 'p \<Rightarrow> 'p option"     \<comment> \<open>\<^verbatim>\<open>p.union(q).exterior\<close>, \<open>None\<close> where the
                                                 union is a MultiPolygon and has no exterior\<close>
  union_or_hull :: "'p \<Rightarrow> 'p \<Rightarrow> 'p"             \<comment> \<open>\<^verbatim>\<open>p.union(q)\<close>, replaced by its
                                                 \<^verbatim>\<open>convex_hull\<close> when it is a MultiPolygon\<close>
  buffer :: "'p \<Rightarrow> nat \<Rightarrow> 'p"                   \<comment> \<open>\<^verbatim>\<open>p.buffer(d)\<close>\<close>
  simplify :: "'p \<Rightarrow> nat \<Rightarrow> 'p"                 \<comment> \<open>\<^verbatim>\<open>p.simplify(tolerance)\<close>\<close>
  is_valid :: "'p \<Rightarrow> bool"                      \<comment> \<open>\<^verbatim>\<open>p.is_valid\<close>\<close>
  exterior_coords :: "'p \<Rightarrow> point list"         \<comment> \<open>\<^verbatim>\<open>p.exterior.coords\<close>\<close>
  Polygon :: "point list \<Rightarrow> 'p"                 \<comment> \<open>\<^verbatim>\<open>Polygon(points)\<close>\<close>

record imaging =
  dilate :: "bool list \<Rightarrow> nat \<Rightarrow> bool list"      \<comment> \<open>\<^verbatim>\<open>cv2.dilate(mask, np.ones((scale, scale))) > 0\<close>\<close>
  findContours :: "bool list \<Rightarrow> point list list"  \<comment> \<open>\<^verbatim>\<open>cv2.findContours(mask, RETR_EXTERNAL, CHAIN_APPROX_SIMPLE)\<close>\<close>

section \<open>Region plausibilisation (repair.py)\<close>

subsection \<open>Regions, and the planning loop (lines 93--146)\<close>

text \<open>
  A \<^verbatim>\<open>TextRegionType\<close> object is its identity \<open>obj\<close> (Python compares these objects
  by identity) and its \<^verbatim>\<open>id\<close> attribute; its coordinates, which a merge overwrites in
  place, live in the store \<open>points\<close> of the page state, keyed by the object.
  \<open>TextRegion\<close> is the list \<^verbatim>\<open>page.TextRegion\<close> that owns the regions.
\<close>

record region_obj =
  obj :: nat
  rid :: string

record 'p regionpoly =
  region :: region_obj
  polygon :: 'p

record 'p page_state =
  TextRegion :: "region_obj list"
  points :: "nat \<Rightarrow> 'p"

text \<open>
  Lines 103--105: the regions with the polygon of their coordinates, sorted by area.
  Python's \<^verbatim>\<open>sorted\<close> is stable, as \<open>sort_key\<close> is.
\<close>

definition regionspolys :: "('p, 'a::linorder) geometry \<Rightarrow> 'p page_state \<Rightarrow> 'p regionpoly list" where
  "regionspolys g st =
     sort_key (\<lambda>rp. area g (polygon rp))
       (map (\<lambda>r. \<lparr>region = r, polygon = points st (obj r)\<rparr>) (TextRegion st))"

text \<open>
  \<^verbatim>\<open>mark_for_deletion\<close> is a list of region ids, \<^verbatim>\<open>mark_for_merging\<close> a dictionary
  from the id of a region to the region object it is merged into.
\<close>

type_synonym marks = "string list \<times> (string \<rightharpoonup> region_obj)"

text \<open>
  Lines 108--146, the body of the two loops for one pair: \<open>rp1\<close> comes before \<open>rp2\<close>
  in the order by area. In the overlap branch the intersection and the union are computed
  first (lines 130--131); then the arguments of \<^verbatim>\<open>LOG.debug\<close> in line 132 are
  evaluated, before the hull test, so a zero area raises ZeroDivisionError there. The sum
  and the two quotients are the machine's.
\<close>

definition compare_regions ::
  "('p, 'a::{linorder, zero, plus, inverse}) geometry \<Rightarrow> 'a \<Rightarrow>
   'p regionpoly \<Rightarrow> 'p regionpoly \<Rightarrow> marks \<Rightarrow> error + marks" where
  "compare_regions g min_overlap rp1 rp2 m =
     (let region1 = region rp1; region2 = region rp2;
          poly1 = polygon rp1; poly2 = polygon rp2;
          mark_for_deletion = fst m; mark_for_merging = snd m
      in if almost_equals g poly1 poly2 then
           Inr (mark_for_deletion @ [rid region2], mark_for_merging)
         else if contains g poly1 poly2 then
           Inr (mark_for_deletion @ [rid region2], mark_for_merging)
         else if contains g poly2 poly1 then
           Inr (mark_for_deletion @ [rid region1], mark_for_merging)
         else if overlaps g poly1 poly2 then
           (case intersection_area g poly1 poly2 of
              None \<Rightarrow> Inl TopologicalError
            | Some inter_area \<Rightarrow>
           (case union_hull_area g poly1 poly2 of
              None \<Rightarrow> Inl TopologicalError
            | Some hull_area \<Rightarrow>
                if area g poly1 = 0 \<or> area g poly2 = 0 then Inl ZeroDivisionError
                else if hull_area \<ge> area g poly1 + area g poly2 then
                  Inr (mark_for_deletion, mark_for_merging)
                else if inter_area / area g poly2 > min_overlap then
                  Inr (mark_for_deletion, mark_for_merging(rid region2 \<mapsto> region1))
                else if inter_area / area g poly1 > min_overlap then
                  Inr (mark_for_deletion, mark_for_merging(rid region1 \<mapsto> region2))
                else Inr (mark_for_deletion, mark_for_merging)))
         else Inr (mark_for_deletion, mark_for_merging))"

text \<open>
  Lines 106--107: \<^verbatim>\<open>for i in range(0, n): for j in range(i+1, n)\<close> over the sorted
  list, as recursion on the list: the inner loop pairs a region with every later one.
\<close>

fun compare_later ::
  "('p, 'a::{linorder, zero, plus, inverse}) geometry \<Rightarrow> 'a \<Rightarrow>
   'p regionpoly \<Rightarrow> 'p regionpoly list \<Rightarrow> marks \<Rightarrow> error + marks" where
  "compare_later g min_overlap rp1 [] m = Inr m"
| "compare_later g min_overlap rp1 (rp2 # rest) m =
     (case compare_regions g min_overlap rp1 rp2 m of
        Inl e \<Rightarrow> Inl e
      | Inr m' \<Rightarrow> compare_later g min_overlap rp1 rest m')"

fun compare_all ::
  "('p, 'a::{linorder, zero, plus, inverse}) geometry \<Rightarrow> 'a \<Rightarrow>
   'p regionpoly list \<Rightarrow> marks \<Rightarrow> error + marks" where
  "compare_all g min_overlap [] m = Inr m"
| "compare_all g min_overlap (rp1 # rest) m =
     (case compare_later g min_overlap rp1 rest m of
        Inl e \<Rightarrow> Inl e
      | Inr m' \<Rightarrow> compare_all g min_overlap rest m')"

text \<open>The plan of a page: lines 93--146.\<close>

definition plan_page ::
  "('p, 'a::{linorder, zero, plus, inverse}) geometry \<Rightarrow> 'a \<Rightarrow> 'p page_state \<Rightarrow> error + marks" where
  "plan_page g min_overlap st =
     compare_all g min_overlap (regionspolys g st) ([], Map.empty)"

subsection \<open>The reading order and its surgery (lines 316--400)\<close>

text \<open>
  A reading-order group holds three lists of children, one per class of element: for
  an ordered group \<^verbatim>\<open>RegionRefIndexed\<close>, \<^verbatim>\<open>OrderedGroupIndexed\<close> and
  \<^verbatim>\<open>UnorderedGroupIndexed\<close>, for an unordered one \<^verbatim>\<open>RegionRef\<close>, \<^verbatim>\<open>OrderedGroup\<close>
  and \<^verbatim>\<open>UnorderedGroup\<close>. Whether a group is ordered is known from the list it stands in
  (the top group: from the accessor of \<^verbatim>\<open>ReadingOrder\<close> that returned it). The index of
  a child of an unordered group is an attribute the element does not have; the code never
  reads it there. A group's own \<^verbatim>\<open>regionRef\<close> is optional.
\<close>

datatype regionref = RegionRef (ref_index: int) (ref_regionRef: string)

datatype rogroup =
  Group (group_index: int) (group_regionRef: "string option")
        (RegionRefs: "regionref list") (OrderedGroups: "rogroup list")
        (UnorderedGroups: "rogroup list")

datatype child_class = RegionRefClass | OrderedGroupClass | UnorderedGroupClass

text \<open>
  What the local variable \<^verbatim>\<open>regionrefs\<close> is bound to: the fresh concatenation of the
  three lists (lines 322, 327), or, after line 387, one of the group's own lists.
\<close>

datatype binding = Concatenation | ChildList child_class

text \<open>
  Lines 330--331: \<^verbatim>\<open>reading_order[elem.get_regionRef()] = elem\<close> over the concatenation;
  a later element overwrites an earlier one with the same key. The element found for a
  region id is therefore the last child with that \<^verbatim>\<open>regionRef\<close>, in the last of the three
  lists that has one; \<open>reading_order_class\<close> is the class of that element.
\<close>

definition reading_order_class ::
  "regionref list \<Rightarrow> rogroup list \<Rightarrow> rogroup list \<Rightarrow> string \<Rightarrow> child_class option" where
  "reading_order_class refs ogroups ugroups k =
     (if Some k \<in> set (map group_regionRef ugroups) then Some UnorderedGroupClass
      else if Some k \<in> set (map group_regionRef ogroups) then Some OrderedGroupClass
      else if k \<in> set (map ref_regionRef refs) then Some RegionRefClass
      else None)"

fun remove_first :: "('a \<Rightarrow> bool) \<Rightarrow> 'a list \<Rightarrow> 'a list" where
  "remove_first P [] = []"
| "remove_first P (x # xs) = (if P x then xs else x # remove_first P xs)"

definition remove_last :: "('a \<Rightarrow> bool) \<Rightarrow> 'a list \<Rightarrow> 'a list" where
  "remove_last P xs = rev (remove_first P (rev xs))"

text \<open>
  The state of the loop over the regions (lines 335--389): the three child lists of
  \<^verbatim>\<open>rogroup\<close>, the coordinates store, \<^verbatim>\<open>wait_for_deletion\<close>, the binding of
  \<^verbatim>\<open>regionrefs\<close>, and the keys whose element has already been removed from its list
  (removing the same object a second time raises ValueError).
\<close>

record 'p surgery =
  s_refs :: "regionref list"
  s_ogroups :: "rogroup list"
  s_ugroups :: "rogroup list"
  s_points :: "nat \<Rightarrow> 'p"
  s_wait :: "region_obj list"
  s_regionrefs :: binding
  s_removed :: "string list"

text \<open>Lines 341--356: the merge into the super region, which overwrites its coordinates.\<close>

definition merge_region ::
  "('p, 'a) geometry \<Rightarrow> (string \<rightharpoonup> region_obj) \<Rightarrow> 'p regionpoly \<Rightarrow> (nat \<Rightarrow> 'p) \<Rightarrow> error + (nat \<Rightarrow> 'p)" where
  "merge_region g mark_for_merging rp pts =
     (case mark_for_merging (rid (region rp)) of
        None \<Rightarrow> Inr pts
      | Some superreg \<Rightarrow>
          (case union_exterior g (pts (obj superreg)) (polygon rp) of
             None \<Rightarrow> Inl AttributeError
           | Some superpoly \<Rightarrow> Inr (pts(obj superreg := superpoly))))"

text \<open>
  Lines 383--389: the element the dictionary holds for the region id is removed from the
  list of its class, and \<^verbatim>\<open>regionrefs\<close> is rebound to that list.
\<close>

definition remove_regionref :: "child_class \<Rightarrow> string \<Rightarrow> 'p surgery \<Rightarrow> 'p surgery" where
  "remove_regionref c k s =
     (case c of
        RegionRefClass \<Rightarrow> s\<lparr>s_refs := remove_last (\<lambda>e. ref_regionRef e = k) (s_refs s)\<rparr>
      | OrderedGroupClass \<Rightarrow>
          s\<lparr>s_ogroups := remove_last (\<lambda>e. group_regionRef e = Some k) (s_ogroups s)\<rparr>
      | UnorderedGroupClass \<Rightarrow>
          s\<lparr>s_ugroups := remove_last (\<lambda>e. group_regionRef e = Some k) (s_ugroups s)\<rparr>)
     \<lparr>s_regionrefs := ChildList c, s_removed := k # s_removed s\<rparr>"

text \<open>
  Lines 336--389, the body of the loop for one region. \<open>dict\<close> is the class lookup of the
  dictionary built in lines 330--331, before any removal.
\<close>

definition plausibilize_region ::
  "('p, 'a) geometry \<Rightarrow> string list \<Rightarrow> (string \<rightharpoonup> region_obj) \<Rightarrow> (string \<Rightarrow> child_class option) \<Rightarrow>
   'p regionpoly \<Rightarrow> 'p surgery \<Rightarrow> error + 'p surgery" where
  "plausibilize_region g mark_for_deletion mark_for_merging dict rp s =
     (let k = rid (region rp) in
      if k \<in> set mark_for_deletion \<or> k \<in> dom mark_for_merging then
        (case merge_region g mark_for_merging rp (s_points s) of
           Inl e \<Rightarrow> Inl e
         | Inr pts \<Rightarrow>
             (let s1 = s\<lparr>s_points := pts, s_wait := s_wait s @ [region rp]\<rparr> in
              case dict k of
                None \<Rightarrow> Inr s1
              | Some c \<Rightarrow> if k \<in> set (s_removed s1) then Inl ValueError
                          else Inr (remove_regionref c k s1)))
      else Inr s)"

fun plausibilize_regions ::
  "('p, 'a) geometry \<Rightarrow> string list \<Rightarrow> (string \<rightharpoonup> region_obj) \<Rightarrow> (string \<Rightarrow> child_class option) \<Rightarrow>
   'p regionpoly list \<Rightarrow> 'p surgery \<Rightarrow> error + 'p surgery" where
  "plausibilize_regions g dels mrg dict [] s = Inr s"
| "plausibilize_regions g dels mrg dict (rp # rest) s =
     (case plausibilize_region g dels mrg dict rp s of
        Inl e \<Rightarrow> Inl e
      | Inr s' \<Rightarrow> plausibilize_regions g dels mrg dict rest s')"

text \<open>
  Lines 391--395. \<^verbatim>\<open>regionrefs.sort(key=get_index)\<close> is stable; the elements then get
  the indices 0, 1, ... in the sorted order. Bound to one of the group's lists, the sort
  reorders that list in place and only its elements are renumbered.
\<close>

definition set_group_index :: "int \<Rightarrow> rogroup \<Rightarrow> rogroup" where
  "set_group_index i e =
     Group i (group_regionRef e) (RegionRefs e) (OrderedGroups e) (UnorderedGroups e)"

definition reindex_refs :: "regionref list \<Rightarrow> regionref list" where
  "reindex_refs xs =
     map (\<lambda>(i, e). RegionRef (int i) (ref_regionRef e)) (enumerate 0 (sort_key ref_index xs))"

definition reindex_groups :: "rogroup list \<Rightarrow> rogroup list" where
  "reindex_groups xs =
     map (\<lambda>(i, e). set_group_index (int i) e) (enumerate 0 (sort_key group_index xs))"

text \<open>
  Bound to the concatenation, the sort reorders only that temporary list: every child
  keeps its place in its own list and gets as index its position in the sorted
  concatenation. \<open>new_indices\<close> computes these positions from the old indices.
\<close>

definition new_indices :: "int list \<Rightarrow> int list" where
  "new_indices idx =
     fold (\<lambda>(i, p) acc. acc[p := int i])
       (enumerate 0 (sort_key (\<lambda>p. idx ! p) [0..<length idx])) idx"

definition reindex :: "'p surgery \<Rightarrow> regionref list \<times> rogroup list \<times> rogroup list" where
  "reindex s =
     (case s_regionrefs s of
        ChildList RegionRefClass \<Rightarrow> (reindex_refs (s_refs s), s_ogroups s, s_ugroups s)
      | ChildList OrderedGroupClass \<Rightarrow> (s_refs s, reindex_groups (s_ogroups s), s_ugroups s)
      | ChildList UnorderedGroupClass \<Rightarrow> (s_refs s, s_ogroups s, reindex_groups (s_ugroups s))
      | Concatenation \<Rightarrow>
          (let n1 = length (s_refs s); n2 = length (s_ogroups s);
               idx = new_indices (map ref_index (s_refs s) @ map group_index (s_ogroups s)
                                  @ map group_index (s_ugroups s))
           in (map (\<lambda>(i, e). RegionRef i (ref_regionRef e)) (zip (take n1 idx) (s_refs s)),
               map (\<lambda>(i, e). set_group_index i e) (zip (take n2 (drop n1 idx)) (s_ogroups s)),
               map (\<lambda>(i, e). set_group_index i e) (zip (drop (n1 + n2) idx) (s_ugroups s)))))"

text \<open>
  Lines 335--395 for one group whose nested groups have been processed: the loop over
  the regions, then the re-indexing if the group is ordered. The result is the group as
  it stands after line 395, with the loop's final state.
\<close>

definition group_surgery ::
  "('p, 'a) geometry \<Rightarrow> 'p regionpoly list \<Rightarrow> string list \<Rightarrow> (string \<rightharpoonup> region_obj) \<Rightarrow> bool \<Rightarrow>
   rogroup \<Rightarrow> (nat \<Rightarrow> 'p) \<Rightarrow> error + (rogroup \<times> 'p surgery)" where
  "group_surgery g rps dels mrg ordered rogroup pts =
     (case plausibilize_regions g dels mrg
             (reading_order_class (RegionRefs rogroup) (OrderedGroups rogroup)
                (UnorderedGroups rogroup))
             rps
             \<lparr>s_refs = RegionRefs rogroup, s_ogroups = OrderedGroups rogroup,
              s_ugroups = UnorderedGroups rogroup, s_points = pts, s_wait = [],
              s_regionrefs = Concatenation, s_removed = []\<rparr> of
        Inl e \<Rightarrow> Inl e
      | Inr s \<Rightarrow>
          (let (refs, ogroups, ugroups) =
                 (if ordered then reindex s else (s_refs s, s_ogroups s, s_ugroups s))
           in Inr (Group (group_index rogroup) (group_regionRef rogroup) refs ogroups ugroups, s)))"

text \<open>
  Lines 397--400: every region of \<^verbatim>\<open>wait_for_deletion\<close> is removed from
  \<^verbatim>\<open>page.TextRegion\<close>; \<^verbatim>\<open>list.remove\<close> raises ValueError for a region that is not
  in the list.
\<close>

fun delete_regions :: "region_obj list \<Rightarrow> region_obj list \<Rightarrow> error + region_obj list" where
  "delete_regions [] page = Inr page"
| "delete_regions (r # rs) page =
     (if r \<in> set page then delete_regions rs (remove1 r page) else Inl ValueError)"

text \<open>
  \<^verbatim>\<open>_plausibilize_group\<close>. Lines 330--334 call the function on every nested group, the
  ordered ones first; each call runs to its end, deletion loop included, on the shared
  page. Then lines 335--400 for the group itself.
\<close>

fun plausibilize_group ::
  "('p, 'a) geometry \<Rightarrow> 'p regionpoly list \<Rightarrow> string list \<Rightarrow> (string \<rightharpoonup> region_obj) \<Rightarrow> bool \<Rightarrow>
   rogroup \<Rightarrow> 'p page_state \<Rightarrow> error + (rogroup \<times> 'p page_state)"
and plausibilize_groups ::
  "('p, 'a) geometry \<Rightarrow> 'p regionpoly list \<Rightarrow> string list \<Rightarrow> (string \<rightharpoonup> region_obj) \<Rightarrow> bool \<Rightarrow>
   rogroup list \<Rightarrow> 'p page_state \<Rightarrow> error + (rogroup list \<times> 'p page_state)" where
  "plausibilize_group g rps dels mrg ordered (Group i r refs ogroups ugroups) st =
     (case plausibilize_groups g rps dels mrg True ogroups st of
        Inl e \<Rightarrow> Inl e
      | Inr (ogroups', st1) \<Rightarrow>
     (case plausibilize_groups g rps dels mrg False ugroups st1 of
        Inl e \<Rightarrow> Inl e
      | Inr (ugroups', st2) \<Rightarrow>
     (case group_surgery g rps dels mrg ordered (Group i r refs ogroups' ugroups') (points st2) of
        Inl e \<Rightarrow> Inl e
      | Inr (rogroup', s) \<Rightarrow>
     (case delete_regions (s_wait s) (TextRegion st2) of
        Inl e \<Rightarrow> Inl e
      | Inr page \<Rightarrow> Inr (rogroup', \<lparr>TextRegion = page, points = s_points s\<rparr>)))))"
| "plausibilize_groups g rps dels mrg ordered [] st = Inr ([], st)"
| "plausibilize_groups g rps dels mrg ordered (e # es) st =
     (case plausibilize_group g rps dels mrg ordered e st of
        Inl err \<Rightarrow> Inl err
      | Inr (e', st1) \<Rightarrow>
     (case plausibilize_groups g rps dels mrg ordered es st1 of
        Inl err \<Rightarrow> Inl err
      | Inr (es', st2) \<Rightarrow> Inr (e' # es', st2)))"

text \<open>
  Lines 157--166. The reading order of the page is absent, or an ordered or an unordered
  top group (the flag). Without a reading order the function finds no elements, and
  only merges and deletes: the run on a childless unordered group.
\<close>

definition plausibilize_page ::
  "('p, 'a) geometry \<Rightarrow> 'p regionpoly list \<Rightarrow> string list \<Rightarrow> (string \<rightharpoonup> region_obj) \<Rightarrow>
   (bool \<times> rogroup) option \<Rightarrow> 'p page_state \<Rightarrow> error + ((bool \<times> rogroup) option \<times> 'p page_state)" where
  "plausibilize_page g rps dels mrg ro st =
     (case ro of
        None \<Rightarrow>
          (case plausibilize_group g rps dels mrg False (Group 0 None [] [] []) st of
             Inl e \<Rightarrow> Inl e
           | Inr (_, st') \<Rightarrow> Inr (None, st'))
      | Some (ordered, rogroup) \<Rightarrow>
          (case plausibilize_group g rps dels mrg ordered rogroup st of
             Inl e \<Rightarrow> Inl e
           | Inr (rogroup', st') \<Rightarrow> Inr (Some (ordered, rogroup'), st')))"

text \<open>
  \<^verbatim>\<open>process\<close>, lines 93--166, for one page whose coordinates have been validated and
  sanitised: plan, then execute if \<^verbatim>\<open>plausibilize\<close> is set.
\<close>

definition repair_page ::
  "('p, 'a::{linorder, zero, plus, inverse}) geometry \<Rightarrow> 'a \<Rightarrow> bool \<Rightarrow> (bool \<times> rogroup) option \<Rightarrow> 'p page_state \<Rightarrow>
   error + ((bool \<times> rogroup) option \<times> 'p page_state)" where
  "repair_page g min_overlap plausibilize ro st =
     (case plan_page g min_overlap st of
        Inl e \<Rightarrow> Inl e
      | Inr (dels, mrg) \<Rightarrow>
          if plausibilize then plausibilize_page g (regionspolys g st) dels mrg ro st
          else Inr (ro, st))"

section \<open>Address regions from detections (classify\_address\_layout.py)\<close>

subsection \<open>From a mask to a polygon (lines 234--256)\<close>

text \<open>
  Lines 236--238: \<^verbatim>\<open>scale = int(np.sqrt(area)//10)\<close>, made odd.
\<close>

definition structuring_scale :: "nat \<Rightarrow> nat" where
  "structuring_scale a = (let scale = nat \<lfloor>sqrt (real a) / 10\<rfloor> in scale + (scale + 1) mod 2)"

text \<open>
  Lines 242--250: \<^verbatim>\<open>contours\<close> starts as \<^verbatim>\<open>[None, None]\<close>; at most ten rounds of
  dilation, stopping before a round when exactly one contour is left.
\<close>

fun dilate_loop ::
  "imaging \<Rightarrow> nat \<Rightarrow> nat \<Rightarrow> bool list \<Rightarrow> point list option list \<Rightarrow>
   bool list \<times> point list option list" where
  "dilate_loop cv scale 0 msk contours = (msk, contours)"
| "dilate_loop cv scale (Suc n) msk contours =
     (if length contours = 1 then (msk, contours)
      else (let msk' = dilate cv msk scale
            in dilate_loop cv scale n msk' (map Some (findContours cv msk'))))"

text \<open>
  Lines 252--255: \<^verbatim>\<open>for tolerance in range(2, int(area))\<close>, each round simplifying the
  polygon of the round before, until the result is valid. Nothing is tested after the
  loop.
\<close>

fun simplify_until_valid :: "('p, 'a) geometry \<Rightarrow> 'p \<Rightarrow> nat list \<Rightarrow> 'p" where
  "simplify_until_valid g region_poly [] = region_poly"
| "simplify_until_valid g region_poly (tolerance # rest) =
     (let p = simplify g region_poly tolerance
      in if is_valid g p then p else simplify_until_valid g p rest)"

text \<open>
  Lines 234--255. \<^verbatim>\<open>contours[0]\<close> raises IndexError when no contour was found;
  \<^verbatim>\<open>Polygon\<close> raises ValueError for fewer than three points. The result is
  \<^verbatim>\<open>region_poly\<close> with \<^verbatim>\<open>scale\<close>.
\<close>

definition mask_to_polygon :: "('p, 'a) geometry \<Rightarrow> imaging \<Rightarrow> bool list \<Rightarrow> error + ('p \<times> nat)" where
  "mask_to_polygon g cv msk =
     (let area_px = length (filter id msk);
          scale = structuring_scale area_px;
          contours = snd (dilate_loop cv scale 10 msk [None, None])
      in case contours of
           [] \<Rightarrow> Inl IndexError
         | None # _ \<Rightarrow> Inl TypeError
         | Some pts # _ \<Rightarrow>
             if length pts < 3 then Inl ValueError
             else Inr (simplify_until_valid g (Polygon g pts) [2..<area_px], scale))"

text \<open>Line 256: \<^verbatim>\<open>region_poly.exterior.coords[:-1]\<close>.\<close>

definition open_boundary :: "('p, 'a) geometry \<Rightarrow> 'p \<Rightarrow> point list" where
  "open_boundary g region_poly = butlast (exterior_coords g region_poly)"

subsection \<open>The page: regions, lines, and the reading-order dictionary\<close>

text \<open>
  Text regions are objects in a store; \<open>TextRegions\<close> gives, for the page and for every
  region, the list \<^verbatim>\<open>.TextRegion\<close> of the regions it owns. A region knows its owner
  (\<^verbatim>\<open>parent_object_\<close>; a region made by the constructor has none). Of a line the code
  reads \<^verbatim>\<open>custom\<close>, the first \<^verbatim>\<open>TextEquiv\<close> (absent when the list is empty) and its
  polygon, and writes \<^verbatim>\<open>id\<close>. A stolen line is one object in the old and in the new
  region; the model copies it, the old region being read no more once it has left the
  page. Image and page coordinates are one frame here.
\<close>

record 'p text_line =
  line_id :: string
  line_custom :: "string option"
  line_Unicode :: "string option"
  line_poly :: 'p

record 'p text_region =
  region_id :: string
  parent_object :: "nat option"
  TextLine :: "'p text_line list"
  region_custom :: "string option"
  TextEquiv :: "string option"
  Coords :: "point list"

text \<open>
  An element of the reading-order tree is named by its path from the top group: at each
  step a position in one of the three child lists. The dictionary \<^verbatim>\<open>reading_order\<close>
  maps \<^verbatim>\<open>regionRef\<close> values to elements.
\<close>

datatype step = RegionRefAt nat | OrderedGroupAt nat | UnorderedGroupAt nat

type_synonym path = "step list"

record 'p layout =
  region_store :: "nat \<Rightarrow> 'p text_region"
  TextRegions :: "nat \<Rightarrow> nat list"
  page_object :: nat
  ReadingOrder :: "rogroup option"
  reading_order :: "string option \<rightharpoonup> path"
  next_obj :: nat

text \<open>
  \<^verbatim>\<open>page_get_reading_order\<close> (lines 405--423): every element of the group is entered
  under its \<^verbatim>\<open>regionRef\<close>, a nested group followed by its own elements; a later entry
  overwrites an earlier one with the same key.
\<close>

fun group_entries :: "rogroup \<Rightarrow> (string option \<times> path) list"
and groups_entries :: "(nat \<Rightarrow> step) \<Rightarrow> nat \<Rightarrow> rogroup list \<Rightarrow> (string option \<times> path) list" where
  "group_entries (Group i r refs ogroups ugroups) =
     map (\<lambda>(n, e). (Some (ref_regionRef e), [RegionRefAt n])) (enumerate 0 refs)
     @ groups_entries OrderedGroupAt 0 ogroups
     @ groups_entries UnorderedGroupAt 0 ugroups"
| "groups_entries mk n [] = []"
| "groups_entries mk n (e # es) =
     (group_regionRef e, [mk n]) # map (\<lambda>(k, p). (k, mk n # p)) (group_entries e)
     @ groups_entries mk (Suc n) es"

definition page_get_reading_order ::
  "(string option \<rightharpoonup> path) \<Rightarrow> rogroup \<Rightarrow> (string option \<rightharpoonup> path)" where
  "page_get_reading_order ro rogroup = fold (\<lambda>(k, p) m. m(k \<mapsto> p)) (group_entries rogroup) ro"

text \<open>
  \<^verbatim>\<open>get_regionRef\<close> and \<^verbatim>\<open>set_regionRef\<close> of the element at a path; reading gives
  \<open>None\<close> where the path names no element.
\<close>

fun get_regionRef :: "path \<Rightarrow> rogroup \<Rightarrow> string option option" where
  "get_regionRef [] rogroup = None"
| "get_regionRef [RegionRefAt n] rogroup =
     (if n < length (RegionRefs rogroup)
      then Some (Some (ref_regionRef (RegionRefs rogroup ! n))) else None)"
| "get_regionRef [OrderedGroupAt n] rogroup =
     (if n < length (OrderedGroups rogroup)
      then Some (group_regionRef (OrderedGroups rogroup ! n)) else None)"
| "get_regionRef [UnorderedGroupAt n] rogroup =
     (if n < length (UnorderedGroups rogroup)
      then Some (group_regionRef (UnorderedGroups rogroup ! n)) else None)"
| "get_regionRef (RegionRefAt n # p) rogroup = None"
| "get_regionRef (OrderedGroupAt n # p) rogroup =
     (if n < length (OrderedGroups rogroup)
      then get_regionRef p (OrderedGroups rogroup ! n) else None)"
| "get_regionRef (UnorderedGroupAt n # p) rogroup =
     (if n < length (UnorderedGroups rogroup)
      then get_regionRef p (UnorderedGroups rogroup ! n) else None)"

definition set_group_regionRef :: "string \<Rightarrow> rogroup \<Rightarrow> rogroup" where
  "set_group_regionRef k e =
     Group (group_index e) (Some k) (RegionRefs e) (OrderedGroups e) (UnorderedGroups e)"

fun set_regionRef :: "path \<Rightarrow> string \<Rightarrow> rogroup \<Rightarrow> rogroup" where
  "set_regionRef [] k rogroup = rogroup"
| "set_regionRef [RegionRefAt n] k (Group i r refs ogroups ugroups) =
     Group i r (refs[n := RegionRef (ref_index (refs ! n)) k]) ogroups ugroups"
| "set_regionRef [OrderedGroupAt n] k (Group i r refs ogroups ugroups) =
     Group i r refs (ogroups[n := set_group_regionRef k (ogroups ! n)]) ugroups"
| "set_regionRef [UnorderedGroupAt n] k (Group i r refs ogroups ugroups) =
     Group i r refs ogroups (ugroups[n := set_group_regionRef k (ugroups ! n)])"
| "set_regionRef (RegionRefAt n # p) k rogroup = rogroup"
| "set_regionRef (OrderedGroupAt n # p) k (Group i r refs ogroups ugroups) =
     Group i r refs (ogroups[n := set_regionRef p k (ogroups ! n)]) ugroups"
| "set_regionRef (UnorderedGroupAt n # p) k (Group i r refs ogroups ugroups) =
     Group i r refs ogroups (ugroups[n := set_regionRef p k (ugroups ! n)])"

subsection \<open>Identifiers\<close>

text \<open>\<^verbatim>\<open>'%02d' % n\<close>: decimal, padded with a zero to two digits.\<close>

function decimal :: "nat \<Rightarrow> string" where
  "decimal n =
     (if n < 10 then [''0123456789'' ! n]
      else decimal (n div 10) @ [''0123456789'' ! (n mod 10)])"
  by pat_completeness auto
termination
  by (relation "measure id") auto

declare decimal.simps [simp del]

definition fmt02 :: "nat \<Rightarrow> string" where
  "fmt02 n = (if n < 10 then CHR ''0'' # decimal n else decimal n)"

definition startswith :: "string \<Rightarrow> string \<Rightarrow> bool" where
  "startswith s p = (take (length p) s = p)"

fun join_newline :: "string list \<Rightarrow> string" where
  "join_newline [] = []"
| "join_newline [x] = x"
| "join_newline (x # y # rest) = x @ [CHR 0x0A] @ join_newline (y # rest)"

definition categories :: "string list" where
  "categories = ['''', ''address-rcpt'', ''address-sndr'', ''address-contact'']"

subsection \<open>Replacing the regions under a detection (lines 260--324)\<close>

text \<open>
  The new region with the polygon it is compared by and the flag \<^verbatim>\<open>has_address\<close>.
\<close>

record 'p candidate =
  cand_region :: "'p text_region"
  region_poly :: 'p
  has_address :: bool

text \<open>Line 286: the test that sets \<^verbatim>\<open>has_address\<close>.\<close>

definition address_line :: "'p text_line \<Rightarrow> bool" where
  "address_line textline =
     (case line_custom textline of
        None \<Rightarrow> False
      | Some c \<Rightarrow> c \<noteq> [] \<and> startswith c ''subtype: ADDRESS_'')"

text \<open>
  Lines 285--300 for one line of the old region: the line gets a new id, joins the new
  region, and the region grows to take in a line that sticks out.
\<close>

definition steal_line :: "('p, 'a) geometry \<Rightarrow> 'p text_line \<Rightarrow> nat \<times> 'p candidate \<Rightarrow> nat \<times> 'p candidate" where
  "steal_line g textline acc =
     (let line_no = fst acc; c = snd acc;
          has = (has_address c \<or> address_line textline);
          rg = (cand_region c)\<lparr>TextLine := TextLine (cand_region c)
                  @ [textline\<lparr>line_id := region_id (cand_region c) @ ''_line'' @ fmt02 line_no\<rparr>]\<rparr>
      in if \<not> poly_within g (line_poly textline) (region_poly c) then
           (let grown = union_or_hull g (line_poly textline) (region_poly c)
            in (Suc line_no,
                \<lparr>cand_region = rg\<lparr>Coords := open_boundary g grown\<rparr>,
                 region_poly = grown, has_address = has\<rparr>))
         else (Suc line_no, \<lparr>cand_region = rg, region_poly = region_poly c, has_address = has\<rparr>))"

text \<open>Lines 276--280: the old region is redundant under the new one.\<close>

definition supersedes :: "('p, 'a) geometry \<Rightarrow> nat \<Rightarrow> 'p \<Rightarrow> 'p \<Rightarrow> bool" where
  "supersedes g scale neighpoly poly =
     (poly_within g neighpoly poly \<or>
      poly_within g neighpoly (buffer g poly (4 * scale)) \<or>
      (intersects g neighpoly poly \<and>
         (almost_equals g neighpoly poly \<or> covers_most g neighpoly poly)))"

text \<open>
  Lines 274--318, the loop body for one old region \<^verbatim>\<open>neighbour\<close> with its polygon.
  The branches for crossing and overlapping regions only log.
\<close>

definition steal_region ::
  "('p, 'a) geometry \<Rightarrow> nat \<Rightarrow> nat \<times> 'p \<Rightarrow> 'p candidate \<times> nat list \<times> 'p layout \<Rightarrow>
   error + ('p candidate \<times> nat list \<times> 'p layout)" where
  "steal_region g scale np acc =
     (let neighbour = fst np; neighpoly = snd np;
          c = fst acc; oldregions = fst (snd acc); st = snd (snd acc)
      in if neighbour \<in> set oldregions then Inr acc
         else if supersedes g scale neighpoly (region_poly c) then
           (let nb = region_store st neighbour;
                c1 = snd (fold (steal_line g) (TextLine nb) (length (TextLine (cand_region c)), c));
                c2 = c1\<lparr>cand_region := (cand_region c1)
                         \<lparr>TextEquiv := Some (join_newline
                             (List.map_filter line_Unicode (TextLine (cand_region c1))))\<rparr>\<rparr>
            in case parent_object nb of
                 None \<Rightarrow> Inl AttributeError
               | Some parent \<Rightarrow>
                   if neighbour \<notin> set (TextRegions st parent) then Inl ValueError
                   else
                     (let st1 = st\<lparr>TextRegions := (TextRegions st)
                                   (parent := remove1 neighbour (TextRegions st parent))\<rparr>;
                          st2 = (case reading_order st1 (Some (region_id nb)) of
                                   None \<Rightarrow> st1
                                 | Some roelem \<Rightarrow>
                                     st1\<lparr>ReadingOrder :=
                                            map_option (set_regionRef roelem (region_id (cand_region c)))
                                              (ReadingOrder st1),
                                          reading_order :=
                                            ((reading_order st1)
                                               (Some (region_id (cand_region c)) \<mapsto> roelem))
                                               (Some (region_id nb) := None)\<rparr>)
                      in Inr (c2, oldregions @ [neighbour], st2)))
         else Inr acc)"

fun steal_regions ::
  "('p, 'a) geometry \<Rightarrow> nat \<Rightarrow> (nat \<times> 'p) list \<Rightarrow> 'p candidate \<times> nat list \<times> 'p layout \<Rightarrow>
   error + ('p candidate \<times> nat list \<times> 'p layout)" where
  "steal_regions g scale [] acc = Inr acc"
| "steal_regions g scale (np # rest) acc =
     (case steal_region g scale np acc of
        Inl e \<Rightarrow> Inl e
      | Inr acc' \<Rightarrow> steal_regions g scale rest acc')"

text \<open>
  Line 321: \<^verbatim>\<open>page.add_TextRegion(region)\<close>; the new region is a new object.
\<close>

definition add_TextRegion :: "'p text_region \<Rightarrow> 'p layout \<Rightarrow> 'p layout" where
  "add_TextRegion rg st =
     st\<lparr>region_store := (region_store st)(next_obj st := rg),
        TextRegions := (TextRegions st)
          (page_object st := TextRegions st (page_object st) @ [next_obj st])\<rparr>"

text \<open>
  Lines 260--267: the new region, \<^verbatim>\<open>addressregion%02d\<close> of the detection's number,
  with the vectorised mask as its coordinates and no lines yet.
\<close>

definition new_region :: "('p, 'a) geometry \<Rightarrow> nat \<Rightarrow> detection \<Rightarrow> 'p \<Rightarrow> 'p candidate" where
  "new_region g i d poly =
     \<lparr>cand_region =
        \<lparr>region_id = ''addressregion'' @ fmt02 (i + 1), parent_object = None, TextLine = [],
         region_custom = Some (''subtype:'' @ categories ! class_id d), TextEquiv = None,
         Coords = open_boundary g poly\<rparr>,
      region_poly = poly, has_address = False\<rparr>"

text \<open>
  Lines 233--324, the body of the loop for detection \<open>i\<close> once it has passed the tests
  of lines 224--232. \<open>neighbours\<close> is \<^verbatim>\<open>zip(allregions, allpolys)\<close>. Line 233,
  \<^verbatim>\<open>self.categories[cat]\<close>, raises IndexError for a class id beyond the list.
\<close>

definition annotate_region ::
  "('p, 'a) geometry \<Rightarrow> imaging \<Rightarrow> (nat \<times> 'p) list \<Rightarrow> nat \<Rightarrow> detection \<Rightarrow> 'p layout \<Rightarrow> error + 'p layout" where
  "annotate_region g cv neighbours i d st =
     (if \<not> class_id d < length categories then Inl IndexError
      else case mask_to_polygon g cv (mask d) of
        Inl e \<Rightarrow> Inl e
      | Inr (poly, scale) \<Rightarrow>
          (case steal_regions g scale neighbours (new_region g i d poly, [], st) of
             Inl e \<Rightarrow> Inl e
           | Inr (c, oldregions, st') \<Rightarrow>
               (let st'' = (if has_address c then add_TextRegion (cand_region c) st' else st')
                in Inr (st''\<lparr>next_obj := Suc (next_obj st')\<rparr>))))"

text \<open>
  \<^verbatim>\<open>process\<close> for one page (lines 182--324), from the detections \<^verbatim>\<open>preds\<close> on.
\<close>

definition classify_page ::
  "('p, 'a) geometry \<Rightarrow> imaging \<Rightarrow> detection list \<Rightarrow> (nat \<times> 'p) list \<Rightarrow> 'p layout \<Rightarrow> error + 'p layout" where
  "classify_page g cv preds neighbours st =
     process_detections (annotate_region g cv neighbours) preds
       (st\<lparr>reading_order :=
             (case ReadingOrder st of
                None \<Rightarrow> Map.empty
              | Some rogroup \<Rightarrow> page_get_reading_order Map.empty rogroup)\<rparr>)"

section \<open>Example batches\<close>

definition ex_singleton :: "detection list" where
  "ex_singleton = [\<lparr>class_id = 1, score = 0.9, mask = [True, False]\<rparr>,
                   \<lparr>class_id = 1, score = 0.6, mask = [False, True]\<rparr>]"


definition ex_tie :: "detection list" where
  "ex_tie = [\<lparr>class_id = 1, score = 0.5, mask = [True, True]\<rparr>,
             \<lparr>class_id = 1, score = 0.5, mask = [True, False]\<rparr>,
             \<lparr>class_id = 1, score = 0.9, mask = [False, True]\<rparr>]"

definition ex_pair :: "detection list" where
  "ex_pair = [\<lparr>class_id = 1, score = 0.5, mask = [True, True]\<rparr>,
              \<lparr>class_id = 1, score = 0.5, mask = [True, False]\<rparr>]"


section \<open>A stand-in geometry for the worked examples\<close>

text \<open>
  The examples instantiate the library parameters with closed axis-parallel rectangles
  \<open>(x0, y0, x1, y1)\<close>. Area, containment, intersection and the area of the convex hull of
  a union are exact for rectangles; where an operation leaves the rectangles (union,
  buffer) the enclosing rectangle stands for its result, and \<open>simplify\<close> changes nothing.
  Floats are real numbers with exact arithmetic in the examples; their values are small
  dyadic fractions, which floats represent and compute exactly.
\<close>

type_synonym rect = "real \<times> real \<times> real \<times> real"

definition rect_area :: "rect \<Rightarrow> real" where
  "rect_area r = (case r of (x0, y0, x1, y1) \<Rightarrow> (x1 - x0) * (y1 - y0))"

definition rect_contains :: "rect \<Rightarrow> rect \<Rightarrow> bool" where
  "rect_contains a b =
     (case a of (ax0, ay0, ax1, ay1) \<Rightarrow> case b of (bx0, by0, bx1, by1) \<Rightarrow>
        ax0 \<le> bx0 \<and> ay0 \<le> by0 \<and> bx1 \<le> ax1 \<and> by1 \<le> ay1)"

definition rect_intersects :: "rect \<Rightarrow> rect \<Rightarrow> bool" where
  "rect_intersects a b =
     (case a of (ax0, ay0, ax1, ay1) \<Rightarrow> case b of (bx0, by0, bx1, by1) \<Rightarrow>
        ax0 \<le> bx1 \<and> bx0 \<le> ax1 \<and> ay0 \<le> by1 \<and> by0 \<le> ay1)"

definition rect_intersection_area :: "rect \<Rightarrow> rect \<Rightarrow> real" where
  "rect_intersection_area a b =
     (case a of (ax0, ay0, ax1, ay1) \<Rightarrow> case b of (bx0, by0, bx1, by1) \<Rightarrow>
        max 0 (min ax1 bx1 - max ax0 bx0) * max 0 (min ay1 by1 - max ay0 by0))"

definition rect_overlaps :: "rect \<Rightarrow> rect \<Rightarrow> bool" where
  "rect_overlaps a b =
     (0 < rect_intersection_area a b \<and> \<not> rect_contains a b \<and> \<not> rect_contains b a)"

definition bounding_box :: "rect \<Rightarrow> rect \<Rightarrow> rect" where
  "bounding_box a b =
     (case a of (ax0, ay0, ax1, ay1) \<Rightarrow> case b of (bx0, by0, bx1, by1) \<Rightarrow>
        (min ax0 bx0, min ay0 by0, max ax1 bx1, max ay1 by1))"

text \<open>
  The convex hull of two rectangles is their bounding box without a triangle at each
  corner of the box that neither rectangle reaches; \<open>corner_cut\<close> is twice its area, from
  how far each rectangle extends towards the corner in the two directions.
\<close>

definition corner_cut :: "real \<Rightarrow> real \<Rightarrow> real \<Rightarrow> real \<Rightarrow> real" where
  "corner_cut ua va ub vb =
     (if (ua - ub) * (va - vb) < 0 then \<bar>ua - ub\<bar> * \<bar>va - vb\<bar> else 0)"

definition rect_union_hull_area :: "rect \<Rightarrow> rect \<Rightarrow> real" where
  "rect_union_hull_area a b =
     (case a of (ax0, ay0, ax1, ay1) \<Rightarrow> case b of (bx0, by0, bx1, by1) \<Rightarrow>
        rect_area (bounding_box a b)
        - (corner_cut (- ax0) (- ay0) (- bx0) (- by0) + corner_cut ax1 (- ay0) bx1 (- by0)
           + corner_cut (- ax0) ay1 (- bx0) by1 + corner_cut ax1 ay1 bx1 by1) / 2)"

definition rect_exterior_coords :: "rect \<Rightarrow> point list" where
  "rect_exterior_coords r =
     (case r of (x0, y0, x1, y1) \<Rightarrow> [(x0, y0), (x0, y1), (x1, y1), (x1, y0), (x0, y0)])"

definition rect_of_points :: "point list \<Rightarrow> rect" where
  "rect_of_points ps =
     (case ps of
        [] \<Rightarrow> (0, 0, 0, 0)
      | p # qs \<Rightarrow> fold (\<lambda>(x, y) (x0, y0, x1, y1). (min x0 x, min y0 y, max x1 x, max y1 y))
                   qs (fst p, snd p, fst p, snd p))"

definition rect_geometry :: "(rect, real) geometry" where
  "rect_geometry =
     \<lparr>area = rect_area,
      almost_equals = (=),
      contains = rect_contains,
      overlaps = rect_overlaps,
      intersects = rect_intersects,
      poly_within = (\<lambda>a b. rect_contains b a),
      covers_most = (\<lambda>a b. rect_intersection_area a b > 0.8 * rect_area a),
      intersection_area = (\<lambda>a b. Some (rect_intersection_area a b)),
      union_hull_area = (\<lambda>a b. Some (rect_union_hull_area a b)),
      union_exterior = (\<lambda>a b. if rect_intersects a b then Some (bounding_box a b) else None),
      union_or_hull = bounding_box,
      buffer = (\<lambda>r d. case r of (x0, y0, x1, y1) \<Rightarrow>
                  (x0 - real d, y0 - real d, x1 + real d, y1 + real d)),
      simplify = (\<lambda>r tolerance. r),
      is_valid = (\<lambda>r. case r of (x0, y0, x1, y1) \<Rightarrow> x0 < x1 \<and> y0 < y1),
      exterior_coords = rect_exterior_coords,
      Polygon = rect_of_points\<rparr>"

text \<open>A page of two regions: \<open>r1\<close> is object 0, \<open>r2\<close> object 1.\<close>

definition two_regions :: "rect \<Rightarrow> rect \<Rightarrow> rect page_state" where
  "two_regions a b =
     \<lparr>TextRegion = [\<lparr>obj = 0, rid = ''r1''\<rparr>, \<lparr>obj = 1, rid = ''r2''\<rparr>],
      points = (\<lambda>n. if n = 0 then a else b)\<rparr>"

section \<open>An example page for the detections\<close>

text \<open>
  The image library of the examples: dilation with the one-pixel kernel changes
  nothing, and the only foreground shape is the square with corners (0, 0) and (3, 3),
  whose outline \<open>findContours\<close> returns.
\<close>

definition square_imaging :: imaging where
  "square_imaging =
     \<lparr>dilate = (\<lambda>msk scale. msk),
      findContours = (\<lambda>msk. if True \<in> set msk then [[(0, 0), (0, 3), (3, 3), (3, 0)]] else [])\<rparr>"

definition square_mask :: "bool list" where
  "square_mask = replicate 16 True"

text \<open>
  A page (object 0) with one old text region \<open>r1\<close> (object 1) inside the square, referred
  to by the first element of an ordered reading-order group. \<open>page_of_line\<close> gives the
  region one line with the given \<^verbatim>\<open>custom\<close> attribute.
\<close>

definition page_of_line :: "string option \<Rightarrow> rect layout" where
  "page_of_line c =
     \<lparr>region_store = (\<lambda>n. \<lparr>region_id = ''r1'', parent_object = Some 0,
                             TextLine = [\<lparr>line_id = ''l1'', line_custom = c,
                                         line_Unicode = Some ''Main Street 1'',
                                         line_poly = (1, 1, 2, 2)\<rparr>],
                             region_custom = None, TextEquiv = None, Coords = []\<rparr>),
      TextRegions = (\<lambda>n. if n = 0 then [1] else []),
      page_object = 0,
      ReadingOrder = Some (Group 0 None [RegionRef 0 ''r1''] [] []),
      reading_order = Map.empty,
      next_obj = 2\<rparr>"

definition square_detection :: detection where
  "square_detection = \<lparr>class_id = 1, score = 0.9, mask = square_mask\<rparr>"

section \<open>Properties of the detection de-duplication\<close>

lemma masks_overlap_sym: "masks_overlap a b = masks_overlap b a"
proof -
  have "list_ex (\<lambda>(x, y). x \<and> y) (zip a b) = list_ex (\<lambda>(x, y). x \<and> y) (zip b a)"
  proof (induction a arbitrary: b)
    case Nil
    then show ?case by simp
  next
    case (Cons x xs)
    then show ?case by (cases b) auto
  qed
  then show ?thesis by (simp add: masks_overlap_def)
qed

lemma worse_inner_set:
  "set (worse_inner (i, di) rest w) =
     set w \<union> {k. \<exists>j dj. (j, dj) \<in> set rest \<and> masks_overlap (mask di) (mask dj) \<and>
                   k = (if score di < score dj then i else j)}"
proof (induction rest arbitrary: w)
  case Nil
  then show ?case by simp
next
  case (Cons a rest)
  obtain j dj where a: "a = (j, dj)" by (cases a)
  show ?case unfolding a by (simp add: Cons.IH) blast
qed

lemma worse_outer_set:
  "set (worse_outer xs w) =
     set w \<union> {k. \<exists>a b. a < b \<and> b < length xs \<and>
                   masks_overlap (mask (snd (xs ! a))) (mask (snd (xs ! b))) \<and>
                   k = (if score (snd (xs ! a)) < score (snd (xs ! b))
                        then fst (xs ! a) else fst (xs ! b))}"
  (is "_ = set w \<union> ?P xs")
proof (induction xs arbitrary: w)
  case Nil
  then show ?case by simp
next
  case (Cons x xs)
  obtain i di where x: "x = (i, di)" by (cases x)
  have split: "?P (x # xs) =
      {k. \<exists>j dj. (j, dj) \<in> set xs \<and> masks_overlap (mask di) (mask dj) \<and>
                   k = (if score di < score dj then i else j)} \<union> ?P xs"
    (is "_ = ?H \<union> _")
  proof (intro set_eqI iffI)
    fix k assume "k \<in> ?P (x # xs)"
    then obtain a b where ab: "a < b" "b < length (x # xs)"
      "masks_overlap (mask (snd ((x # xs) ! a))) (mask (snd ((x # xs) ! b)))"
      "k = (if score (snd ((x # xs) ! a)) < score (snd ((x # xs) ! b))
                        then fst ((x # xs) ! a) else fst ((x # xs) ! b))" by blast
    from ab(1) obtain b' where b': "b = Suc b'" by (cases b) auto
    show "k \<in> ?H \<union> ?P xs"
    proof (cases a)
      case 0
      have "xs ! b' \<in> set xs" using ab(2) b' by simp
      then have "(fst (xs ! b'), snd (xs ! b')) \<in> set xs" by simp
      then have "k \<in> ?H" using ab(3,4) 0 b' x by fastforce
      then show ?thesis by simp
    next
      case (Suc a')
      then have "k \<in> ?P xs" using ab b' by auto
      then show ?thesis by simp
    qed
  next
    fix k assume "k \<in> ?H \<union> ?P xs"
    then show "k \<in> ?P (x # xs)"
    proof
      assume "k \<in> ?H"
      then obtain j dj where h: "(j, dj) \<in> set xs" "masks_overlap (mask di) (mask dj)"
        "k = (if score di < score dj then i else j)" by blast
      from h(1) obtain b where b: "b < length xs" "xs ! b = (j, dj)"
        by (auto simp: in_set_conv_nth)
      have "0 < Suc b \<and> Suc b < length (x # xs) \<and>
         masks_overlap (mask (snd ((x # xs) ! 0))) (mask (snd ((x # xs) ! Suc b))) \<and>
         k = (if score (snd ((x # xs) ! 0)) < score (snd ((x # xs) ! Suc b))
                        then fst ((x # xs) ! 0) else fst ((x # xs) ! Suc b))"
        using b h x by simp
      then show ?thesis by blast
    next
      assume "k \<in> ?P xs"
      then obtain a b where ab: "a < b" "b < length xs"
        "masks_overlap (mask (snd (xs ! a))) (mask (snd (xs ! b)))"
        "k = (if score (snd (xs ! a)) < score (snd (xs ! b))
                        then fst (xs ! a) else fst (xs ! b))" by blast
      have "Suc a < Suc b \<and> Suc b < length (x # xs) \<and>
         masks_overlap (mask (snd ((x # xs) ! Suc a))) (mask (snd ((x # xs) ! Suc b))) \<and>
         k = (if score (snd ((x # xs) ! Suc a)) < score (snd ((x # xs) ! Suc b))
                        then fst ((x # xs) ! Suc a) else fst ((x # xs) ! Suc b))"
        using ab by simp
      then show ?thesis by blast
    qed
  qed
  show ?case unfolding x worse_outer.simps
    by (simp only: Cons.IH worse_inner_set split[unfolded x]) blast
qed

lemma find_worse_iff:
  "k \<in> set (find_worse preds) \<longleftrightarrow>
     (\<exists>a b. a < b \<and> b < length preds \<and>
        masks_overlap (mask (preds ! a)) (mask (preds ! b)) \<and>
        k = (if score (preds ! a) < score (preds ! b) then a else b))"
  (is "?L \<longleftrightarrow> ?R")
proof -
  let ?xs = "enumerate 0 preds"
  have nth: "?xs ! a = (a, preds ! a)" if "a < length preds" for a
    using that by (simp add: nth_enumerate_eq)
  have L: "?L \<longleftrightarrow> (\<exists>a b. a < b \<and> b < length ?xs \<and>
                   masks_overlap (mask (snd (?xs ! a))) (mask (snd (?xs ! b))) \<and>
                   k = (if score (snd (?xs ! a)) < score (snd (?xs ! b))
                        then fst (?xs ! a) else fst (?xs ! b)))"
    unfolding find_worse_def worse_outer_set by simp
  show ?thesis
  proof
    assume ?L
    then obtain a b where ab: "a < b" "b < length ?xs"
      "masks_overlap (mask (snd (?xs ! a))) (mask (snd (?xs ! b)))"
      "k = (if score (snd (?xs ! a)) < score (snd (?xs ! b))
                        then fst (?xs ! a) else fst (?xs ! b))"
      unfolding L by blast
    have "a < length preds" "b < length preds" using ab(1,2) by simp_all
    then have "?xs ! a = (a, preds ! a)" "?xs ! b = (b, preds ! b)" by (simp_all add: nth)
    with ab have "a < b \<and> b < length preds \<and>
        masks_overlap (mask (preds ! a)) (mask (preds ! b)) \<and>
        k = (if score (preds ! a) < score (preds ! b) then a else b)" by simp
    then show ?R by blast
  next
    assume ?R
    then obtain a b where ab: "a < b" "b < length preds"
        "masks_overlap (mask (preds ! a)) (mask (preds ! b))"
        "k = (if score (preds ! a) < score (preds ! b) then a else b)" by blast
    have "a < length preds" using ab(1,2) by simp
    then have "?xs ! a = (a, preds ! a)" "?xs ! b = (b, preds ! b)" using ab(2) by (simp_all add: nth)
    with ab have "a < b \<and> b < length ?xs \<and>
                   masks_overlap (mask (snd (?xs ! a))) (mask (snd (?xs ! b))) \<and>
                   k = (if score (snd (?xs ! a)) < score (snd (?xs ! b))
                        then fst (?xs ! a) else fst (?xs ! b))" by simp
    then show ?L unfolding L by blast
  qed
qed

text \<open>
  Claim C10, as the code has it. For detections \<open>i < j\<close> whose masks share a
  foreground pixel and whose scores are equal, the pair marks the later detection \<open>j\<close>
  as worse and never \<open>i\<close>. Detection \<open>i\<close> is in \<^verbatim>\<open>worse\<close> exactly when some third
  overlapping detection \<open>k\<close> beats it: a later one with a strictly higher score, or an
  earlier one with a score at least as high.
\<close>

theorem C10_amended:
  assumes "i < j" "j < length preds"
    and "masks_overlap (mask (preds ! i)) (mask (preds ! j))"
    and "score (preds ! i) = score (preds ! j)"
  shows "j \<in> set (find_worse preds) \<and>
         (i \<in> set (find_worse preds) \<longleftrightarrow>
            (\<exists>k < length preds. k \<noteq> i \<and> k \<noteq> j \<and>
               masks_overlap (mask (preds ! i)) (mask (preds ! k)) \<and>
               (if i < k then score (preds ! i) < score (preds ! k)
                else score (preds ! i) \<le> score (preds ! k))))"
proof
  have "i < j \<and> j < length preds \<and> masks_overlap (mask (preds ! i)) (mask (preds ! j)) \<and>
        j = (if score (preds ! i) < score (preds ! j) then i else j)"
    using assms by simp
  then show "j \<in> set (find_worse preds)" unfolding find_worse_iff by blast
next
  show "i \<in> set (find_worse preds) \<longleftrightarrow>
            (\<exists>k < length preds. k \<noteq> i \<and> k \<noteq> j \<and>
               masks_overlap (mask (preds ! i)) (mask (preds ! k)) \<and>
               (if i < k then score (preds ! i) < score (preds ! k)
                else score (preds ! i) \<le> score (preds ! k)))" (is "?L \<longleftrightarrow> ?R")
  proof
    assume ?L
    then obtain a b where ab: "a < b" "b < length preds"
        "masks_overlap (mask (preds ! a)) (mask (preds ! b))"
        "i = (if score (preds ! a) < score (preds ! b) then a else b)"
      unfolding find_worse_iff by blast
    show ?R
    proof (cases "score (preds ! a) < score (preds ! b)")
      case True
      then have ia: "i = a" using ab(4) by simp
      have "b \<noteq> j" using True ia assms(4) by auto
      then have "b < length preds \<and> b \<noteq> i \<and> b \<noteq> j \<and>
               masks_overlap (mask (preds ! i)) (mask (preds ! b)) \<and>
               (if i < b then score (preds ! i) < score (preds ! b)
                else score (preds ! i) \<le> score (preds ! b))"
        using ab True ia by simp
      then show ?thesis by blast
    next
      case False
      then have ib: "i = b" using ab(4) by simp
      have "a < length preds \<and> a \<noteq> i \<and> a \<noteq> j \<and>
               masks_overlap (mask (preds ! i)) (mask (preds ! a)) \<and>
               (if i < a then score (preds ! i) < score (preds ! a)
                else score (preds ! i) \<le> score (preds ! a))"
        using ab False ib assms(1) by (simp add: masks_overlap_sym)
      then show ?thesis by blast
    qed
  next
    assume ?R
    then obtain k where k: "k < length preds" "k \<noteq> i" "k \<noteq> j"
       "masks_overlap (mask (preds ! i)) (mask (preds ! k))"
       "if i < k then score (preds ! i) < score (preds ! k)
                else score (preds ! i) \<le> score (preds ! k)" by blast
    show ?L
    proof (cases "i < k")
      case True
      then have "i < k \<and> k < length preds \<and>
        masks_overlap (mask (preds ! i)) (mask (preds ! k)) \<and>
        i = (if score (preds ! i) < score (preds ! k) then i else k)"
        using k by simp
      then show ?thesis unfolding find_worse_iff by blast
    next
      case False
      then have "k < i \<and> i < length preds \<and>
        masks_overlap (mask (preds ! k)) (mask (preds ! i)) \<and>
        i = (if score (preds ! k) < score (preds ! i) then k else i)"
        using k assms(1,2) by (auto simp: masks_overlap_sym)
      then show ?thesis unfolding find_worse_iff by blast
    qed
  qed
qed


theorem C10_amended_witness:
  "1 \<in> set (find_worse ex_pair) \<and> 0 \<notin> set (find_worse ex_pair)"
  using C10_amended [of 0 1 ex_pair]
  by (auto simp: ex_pair_def masks_overlap_def)

text \<open>
  The claim as worded fails: in \<open>ex_tie\<close> the detections 0 and 1 overlap with equal
  scores, yet detection 0 is in \<^verbatim>\<open>worse\<close>, beaten by detection 2.
\<close>

theorem C10_counterexample:
  "(0::nat) < 1 \<and> 1 < length ex_tie \<and>
   masks_overlap (mask (ex_tie ! 0)) (mask (ex_tie ! 1)) \<and>
   score (ex_tie ! 0) = score (ex_tie ! 1) \<and>
   0 \<in> set (find_worse ex_tie)"
  by (simp add: ex_tie_def find_worse_def enumerate_eq_zip masks_overlap_def upt_rec)

lemma nth_list_update_any:
  "c < length xs \<Longrightarrow> (xs[i := v]) ! c = (if i = c then v else xs ! c)"
  by (cases "i = c") simp_all

lemma find_best_length: "length (find_best worse xs best) = length best"
  by (induction worse xs best rule: find_best.induct) auto

lemma find_best_mono: "c < length best \<Longrightarrow> best ! c \<le> find_best worse xs best ! c"
proof (induction worse xs best rule: find_best.induct)
  case (1 worse best)
  then show ?case by simp
next
  case (2 worse i d rest best)
  let ?b = "(if i \<in> set worse then best
        else if class_id d \<notin> {1, 2} then best
        else if score d > best ! class_id d then best[class_id d := score d]
        else best)"
  have len: "length ?b = length best" by simp
  have "best ! c \<le> ?b ! c" using 2(2) by (auto simp: nth_list_update_any)
  also have "?b ! c \<le> find_best worse rest ?b ! c"
    using 2(1) [of ] 2(2) len by simp
  finally show ?case by simp
qed

lemma find_best_upper:
  "(i, d) \<in> set xs \<Longrightarrow> i \<notin> set worse \<Longrightarrow> class_id d \<in> {1, 2} \<Longrightarrow>
   class_id d < length best \<Longrightarrow> score d \<le> find_best worse xs best ! class_id d"
proof (induction worse xs best rule: find_best.induct)
  case (1 worse best)
  then show ?case by simp
next
  case (2 worse k e rest best)
  let ?b = "(if k \<in> set worse then best
        else if class_id e \<notin> {1, 2} then best
        else if score e > best ! class_id e then best[class_id e := score e]
        else best)"
  have len: "length ?b = length best" by simp
  show ?case
  proof (cases "(i, d) = (k, e)")
    case True
    then have "score d \<le> ?b ! class_id d" using 2(3,4,5) by (auto simp: nth_list_update_any)
    also have "\<dots> \<le> find_best worse rest ?b ! class_id d"
      using find_best_mono [of "class_id d" ?b worse rest] 2(5) len by simp
    finally show ?thesis by simp
  next
    case False
    then have "(i, d) \<in> set rest" using 2(2) by auto
    then have "score d \<le> find_best worse rest ?b ! class_id d"
      using 2(1) 2(3,4,5) len by simp
    then show ?thesis by simp
  qed
qed

lemma find_best_attained:
  "c < length best \<Longrightarrow>
   find_best worse xs best ! c = best ! c \<or>
   (\<exists>(i, d) \<in> set xs. i \<notin> set worse \<and> class_id d = c \<and> score d = find_best worse xs best ! c)"
proof (induction worse xs best rule: find_best.induct)
  case (1 worse best)
  then show ?case by simp
next
  case (2 worse k e rest best)
  let ?b = "(if k \<in> set worse then best
        else if class_id e \<notin> {1, 2} then best
        else if score e > best ! class_id e then best[class_id e := score e]
        else best)"
  have len: "c < length ?b" using 2(2) by simp
  have ih: "find_best worse rest ?b ! c = ?b ! c \<or>
   (\<exists>(i, d) \<in> set rest. i \<notin> set worse \<and> class_id d = c \<and> score d = find_best worse rest ?b ! c)"
    using 2(1) [OF len] .
  have b: "?b ! c = best ! c \<or> (k \<notin> set worse \<and> class_id e = c \<and> score e = ?b ! c)"
    using 2(2) by (auto simp: nth_list_update_any)
  from ih b show ?case by (simp only: find_best.simps) fastforce
qed

lemma annotate_loop_record:
  "annotate_loop record_index worse best xs acc = Inr kept \<Longrightarrow>
   kept = acc @ map fst (filter (\<lambda>(i, d). i \<notin> set worse \<and> \<not> score d < best ! class_id d) xs)"
proof (induction xs arbitrary: acc)
  case Nil
  then show ?case by simp
next
  case (Cons x xs)
  obtain i d where x: "x = (i, d)" by (cases x)
  have step: "record_index i d acc = Inr (acc @ [i])" by (simp add: record_index_def)
  show ?case
    using Cons.prems unfolding x
    by (auto simp: step split: if_splits dest!: Cons.IH)
qed

lemma annotate_loop_background:
  "(i, d) \<in> set xs \<Longrightarrow> i \<notin> set worse \<Longrightarrow> class_id d = 0 \<Longrightarrow>
   \<exists>e. annotate_loop annotate worse best xs s = Inl e"
proof (induction xs arbitrary: s)
  case Nil
  then show ?case by simp
next
  case (Cons x xs)
  obtain k e where x: "x = (k, e)" by (cases x)
  show ?case
  proof (cases "(i, d) = (k, e)")
    case True
    then show ?thesis using Cons.prems unfolding x by simp
  next
    case False
    then have "(i, d) \<in> set xs" using Cons.prems(1) x by auto
    then have ih: "\<exists>e. annotate_loop annotate worse best xs s' = Inl e" for s'
      using Cons.IH Cons.prems(2,3) by blast
    show ?thesis unfolding x using ih by (auto split: sum.splits)
  qed
qed


lemma in_enumerate: "i < length xs \<Longrightarrow> (i, xs ! i) \<in> set (enumerate 0 xs)"
  by (metis add_0 in_set_conv_nth length_enumerate nth_enumerate_eq)

lemma enumerate_in: "(i, d) \<in> set (enumerate 0 xs) \<Longrightarrow> i < length xs \<and> d = xs ! i"
  by (auto simp: in_set_enumerate_eq)



lemma kept_detections_iff:
  assumes "kept_detections preds = Inr kept"
  shows "i \<in> set kept \<longleftrightarrow>
         i < length preds \<and> i \<notin> set (find_worse preds) \<and>
         \<not> score (preds ! i) <
             find_best (find_worse preds) (enumerate 0 preds) (replicate 4 0) ! class_id (preds ! i)"
proof -
  let ?w = "find_worse preds"
  let ?best = "find_best ?w (enumerate 0 preds) (replicate 4 0)"
  have k: "kept = map fst (filter (\<lambda>(i, d). i \<notin> set ?w \<and> \<not> score d < ?best ! class_id d)
                       (enumerate 0 preds))"
    using annotate_loop_record [of ?w ?best "enumerate 0 preds" "[]" kept] assms
    unfolding kept_detections_def process_detections_def Let_def by simp
  show ?thesis unfolding k
    by (auto simp: in_set_enumerate_eq image_iff)
qed

lemma ex_singleton_kept: "kept_detections ex_singleton = Inr [0]"
  by (simp add: kept_detections_def process_detections_def ex_singleton_def find_worse_def
      enumerate_eq_zip masks_overlap_def upt_rec record_index_def)


text \<open>
  Claim C7. Let the loop return the list \<open>kept\<close> of detections that reach annotation,
  and let \<open>i\<close> be a detection of class 1 or 2 that is not in \<^verbatim>\<open>worse\<close>. If \<open>i\<close> is
  kept, its score is the maximum over the detections of its class that are not in
  \<^verbatim>\<open>worse\<close>; if one of them scores strictly higher, \<open>i\<close> is dropped, overlapping or
  not; and a non-negative maximal score is kept. The batch of two disjoint class-1
  detections scoring 0.9 and 0.6 keeps detection 0 only.
\<close>

theorem C7_singleton:
  assumes "kept_detections preds = Inr kept"
    and "i < length preds" and "i \<notin> set (find_worse preds)"
    and "class_id (preds ! i) \<in> {1, 2}"
  shows "(i \<in> set kept \<longrightarrow>
            (\<forall>j < length preds. j \<notin> set (find_worse preds) \<and>
                 class_id (preds ! j) = class_id (preds ! i) \<longrightarrow>
                 score (preds ! j) \<le> score (preds ! i))) \<and>
         ((\<exists>j < length preds. j \<notin> set (find_worse preds) \<and>
                 class_id (preds ! j) = class_id (preds ! i) \<and>
                 score (preds ! i) < score (preds ! j)) \<longrightarrow> i \<notin> set kept) \<and>
         (0 \<le> score (preds ! i) \<and>
            (\<forall>j < length preds. j \<notin> set (find_worse preds) \<and>
                 class_id (preds ! j) = class_id (preds ! i) \<longrightarrow>
                 score (preds ! j) \<le> score (preds ! i)) \<longrightarrow> i \<in> set kept) \<and>
         kept_detections ex_singleton = Inr [0]"
proof -
  let ?w = "find_worse preds"
  let ?best = "find_best ?w (enumerate 0 preds) (replicate 4 0)"
  let ?c = "class_id (preds ! i)"
  have c4: "?c < length (replicate 4 (0::real))" using assms(4) by auto
  have upper: "score (preds ! j) \<le> ?best ! ?c"
    if "j < length preds" "j \<notin> set ?w" "class_id (preds ! j) = ?c" for j
    using find_best_upper [OF in_enumerate [OF that(1)] that(2), of "replicate 4 0"]
      that(3) assms(4) c4 by simp
  have A: "\<forall>j < length preds. j \<notin> set ?w \<and> class_id (preds ! j) = ?c \<longrightarrow>
                 score (preds ! j) \<le> score (preds ! i)" if "i \<in> set kept"
  proof (intro allI impI)
    fix j assume j: "j < length preds" "j \<notin> set ?w \<and> class_id (preds ! j) = ?c"
    have "\<not> score (preds ! i) < ?best ! ?c"
      using that kept_detections_iff [OF assms(1)] by blast
    then show "score (preds ! j) \<le> score (preds ! i)"
      using upper [of j] j by simp
  qed
  have C: "i \<in> set kept"
    if nn: "0 \<le> score (preds ! i)"
      and mx: "\<forall>j < length preds. j \<notin> set ?w \<and> class_id (preds ! j) = ?c \<longrightarrow>
                 score (preds ! j) \<le> score (preds ! i)"
  proof -
    have "?best ! ?c = replicate 4 0 ! ?c \<or>
       (\<exists>(k, d) \<in> set (enumerate 0 preds). k \<notin> set ?w \<and> class_id d = ?c \<and> score d = ?best ! ?c)"
      using find_best_attained [OF c4] .
    then have "?best ! ?c \<le> score (preds ! i)"
    proof
      assume "?best ! ?c = replicate 4 0 ! ?c"
      then show ?thesis using nn c4 by simp
    next
      assume "\<exists>(k, d) \<in> set (enumerate 0 preds). k \<notin> set ?w \<and> class_id d = ?c \<and> score d = ?best ! ?c"
      then obtain k d where kd: "(k, d) \<in> set (enumerate 0 preds)" "k \<notin> set ?w"
        "class_id d = ?c" "score d = ?best ! ?c" by blast
      have "k < length preds \<and> d = preds ! k" using enumerate_in [OF kd(1)] .
      then show ?thesis using mx kd by auto
    qed
    then show ?thesis using kept_detections_iff [OF assms(1)] assms(2,3) by auto
  qed
  from A C ex_singleton_kept show ?thesis by force
qed

theorem C7_singleton_witness:
  "kept_detections ex_singleton = Inr [0] \<and> 1 \<notin> set (find_worse ex_singleton) \<and>
   class_id (ex_singleton ! 1) = 1 \<and> score (ex_singleton ! 1) < score (ex_singleton ! 0) \<and>
   (1::nat) \<notin> set [0]"
  using C7_singleton [of ex_singleton "[0]" 1] ex_singleton_kept
  by (simp add: ex_singleton_def find_worse_def enumerate_eq_zip masks_overlap_def upt_rec)


section \<open>Properties of the planning loop\<close>

lemma regionspolys_sorted:
  "sorted (map (\<lambda>rp. area g (polygon rp)) (regionspolys g st))"
  by (simp add: regionspolys_def)

lemma compare_regions_mono:
  "compare_regions g t a b m = Inr m' \<Longrightarrow> set (fst m) \<subseteq> set (fst m')"
  by (auto simp: compare_regions_def Let_def split: if_splits option.splits)

lemma compare_later_mono:
  "compare_later g t a xs m = Inr m' \<Longrightarrow> set (fst m) \<subseteq> set (fst m')"
proof (induction xs arbitrary: m)
  case Nil
  then show ?case by simp
next
  case (Cons x xs)
  from Cons.prems obtain m1 where m1: "compare_regions g t a x m = Inr m1"
    and rest: "compare_later g t a xs m1 = Inr m'"
    by (auto split: sum.splits)
  from compare_regions_mono [OF m1] Cons.IH [OF rest] show ?case by blast
qed

lemma compare_all_mono:
  "compare_all g t xs m = Inr m' \<Longrightarrow> set (fst m) \<subseteq> set (fst m')"
proof (induction xs arbitrary: m)
  case Nil
  then show ?case by simp
next
  case (Cons x xs)
  from Cons.prems obtain m1 where m1: "compare_later g t x xs m = Inr m1"
    and rest: "compare_all g t xs m1 = Inr m'"
    by (auto split: sum.splits)
  from compare_later_mono [OF m1] Cons.IH [OF rest] show ?case by blast
qed

lemma compare_later_hits:
  assumes "compare_later g t a xs m = Inr m'" and "b \<in> set xs"
    and "\<And>m. compare_regions g t a b m = Inr (fst m @ [k], snd m)"
  shows "k \<in> set (fst m')"
  using assms(1,2)
proof (induction xs arbitrary: m)
  case Nil
  then show ?case by simp
next
  case (Cons x xs)
  from Cons.prems(1) obtain m1 where m1: "compare_regions g t a x m = Inr m1"
    and rest: "compare_later g t a xs m1 = Inr m'"
    by (auto split: sum.splits)
  show ?case
  proof (cases "x = b")
    case True
    then have "k \<in> set (fst m1)" using m1 assms(3) [of m] by auto
    then show ?thesis using compare_later_mono [OF rest] by blast
  next
    case False
    then have "b \<in> set xs" using Cons.prems(2) by simp
    then show ?thesis using Cons.IH [OF rest] by simp
  qed
qed

lemma compare_all_hits:
  assumes "compare_all g t (pre @ a # rest) m = Inr m'" and "b \<in> set rest"
    and "\<And>m. compare_regions g t a b m = Inr (fst m @ [k], snd m)"
  shows "k \<in> set (fst m')"
  using assms(1)
proof (induction pre arbitrary: m)
  case Nil
  from Nil obtain m1 where m1: "compare_later g t a rest m = Inr m1"
    and r: "compare_all g t rest m1 = Inr m'"
    by (auto split: sum.splits)
  have "k \<in> set (fst m1)" using compare_later_hits [OF m1 assms(2)] assms(3) by simp
  then show ?case using compare_all_mono [OF r] by blast
next
  case (Cons x pre)
  from Cons.prems obtain m1 where "compare_all g t (pre @ a # rest) m1 = Inr m'"
    by (auto split: sum.splits)
  then show ?case using Cons.IH by simp
qed

lemma two_in_list:
  assumes "a \<in> set xs" "b \<in> set xs" "a \<noteq> b"
  shows "(\<exists>pre rest. xs = pre @ a # rest \<and> b \<in> set rest) \<or>
         (\<exists>pre rest. xs = pre @ b # rest \<and> a \<in> set rest)"
proof -
  from assms(1) obtain pre rest where xs: "xs = pre @ a # rest" and "a \<notin> set pre"
    by (auto dest: split_list_first)
  show ?thesis
  proof (cases "b \<in> set rest")
    case True
    then show ?thesis using xs by blast
  next
    case False
    then have "b \<in> set pre" using assms(2,3) xs by auto
    then obtain p1 p2 where "pre = p1 @ b # p2" by (auto dest: split_list)
    then have "xs = p1 @ b # (p2 @ a # rest)" using xs by simp
    moreover have "a \<in> set (p2 @ a # rest)" by simp
    ultimately show ?thesis by blast
  qed
qed

lemma compare_contained_later:
  assumes "contains g pa pb" "\<not> contains g pb pa" "\<not> almost_equals g pb pa"
  shows "compare_regions g t \<lparr>region = B, polygon = pb\<rparr> \<lparr>region = A, polygon = pa\<rparr> m
           = Inr (fst m @ [rid B], snd m)"
  using assms by (simp add: compare_regions_def Let_def)

lemma compare_contained_earlier:
  assumes "contains g pa pb"
  shows "compare_regions g t \<lparr>region = A, polygon = pa\<rparr> \<lparr>region = B, polygon = pb\<rparr> m
           = Inr (fst m @ [rid B], snd m)"
  using assms by (simp add: compare_regions_def Let_def)

text \<open>
  Claim C1. Let regions \<open>A\<close> and \<open>B\<close> be on the page, the polygon of \<open>B\<close> strictly inside
  that of \<open>A\<close>: \<open>A\<close> contains \<open>B\<close>, \<open>B\<close> does not contain \<open>A\<close>, and \<open>B\<close> is not almost equal
  to \<open>A\<close>. Then every plan the planner returns has the id of \<open>B\<close> in
  \<^verbatim>\<open>mark_for_deletion\<close>, wherever the two regions stand in \<^verbatim>\<open>page.TextRegion\<close>; and
  in whichever order the sort by area presents the pair, its comparison appends the id
  of \<open>B\<close>, and nothing else, to the marks.
\<close>

theorem C1_contained_deleted:
  assumes "plan_page g t st = Inr (dels, mrg)"
    and "A \<in> set (TextRegion st)" and "B \<in> set (TextRegion st)"
    and "contains g (points st (obj A)) (points st (obj B))"
    and "\<not> contains g (points st (obj B)) (points st (obj A))"
    and "\<not> almost_equals g (points st (obj B)) (points st (obj A))"
  shows "rid B \<in> set dels \<and>
         (\<forall>m. compare_regions g t \<lparr>region = B, polygon = points st (obj B)\<rparr>
                 \<lparr>region = A, polygon = points st (obj A)\<rparr> m = Inr (fst m @ [rid B], snd m)) \<and>
         (\<forall>m. compare_regions g t \<lparr>region = A, polygon = points st (obj A)\<rparr>
                 \<lparr>region = B, polygon = points st (obj B)\<rparr> m = Inr (fst m @ [rid B], snd m))"
proof -
  let ?a = "\<lparr>region = A, polygon = points st (obj A)\<rparr>"
  let ?b = "\<lparr>region = B, polygon = points st (obj B)\<rparr>"
  let ?xs = "regionspolys g st"
  have ba: "compare_regions g t ?b ?a m = Inr (fst m @ [rid B], snd m)" for m
    using compare_contained_later [OF assms(4,5,6)] .
  have ab: "compare_regions g t ?a ?b m = Inr (fst m @ [rid B], snd m)" for m
    using compare_contained_earlier [OF assms(4)] .
  have "?a \<in> set ?xs" "?b \<in> set ?xs"
    using assms(2,3) by (auto simp: regionspolys_def)
  moreover have "?a \<noteq> ?b" using assms(4,5) by auto
  ultimately consider
      pre rest where "?xs = pre @ ?a # rest" "?b \<in> set rest"
    | pre rest where "?xs = pre @ ?b # rest" "?a \<in> set rest"
    using two_in_list [of ?a ?xs ?b] by blast
  then have "rid B \<in> set dels"
  proof cases
    case 1
    then have "rid B \<in> set (fst (dels, mrg))"
      using compare_all_hits [of g t pre ?a rest "([], Map.empty)" "(dels, mrg)" ?b "rid B"] ab assms(1)
      by (simp add: plan_page_def)
    then show ?thesis by simp
  next
    case 2
    then have "rid B \<in> set (fst (dels, mrg))"
      using compare_all_hits [of g t pre ?b rest "([], Map.empty)" "(dels, mrg)" ?a "rid B"] ba assms(1)
      by (simp add: plan_page_def)
    then show ?thesis by simp
  qed
  with ab ba show ?thesis by blast
qed


theorem C1_contained_deleted_witness:
  "plan_page rect_geometry (1/2) (two_regions (0, 0, 10, 10) (2, 2, 4, 4)) = Inr ([''r2''], Map.empty) \<and>
   plan_page rect_geometry (1/2) (two_regions (2, 2, 4, 4) (0, 0, 10, 10)) = Inr ([''r1''], Map.empty) \<and>
   contains rect_geometry (0, 0, 10, 10) (2, 2, 4, 4) \<and>
   \<not> contains rect_geometry (2, 2, 4, 4) (0, 0, 10, 10) \<and>
   ''r2'' \<in> set [''r2'']"
  using C1_contained_deleted [of rect_geometry "1/2" "two_regions (0, 0, 10, 10) (2, 2, 4, 4)"
      "[''r2'']" Map.empty "\<lparr>obj = 0, rid = ''r1''\<rparr>" "\<lparr>obj = 1, rid = ''r2''\<rparr>"]
  by (simp add: plan_page_def regionspolys_def two_regions_def rect_geometry_def
      compare_regions_def rect_area_def rect_contains_def)

text \<open>
  Claim C4. A pair that reaches the overlap branch (not almost equal, neither polygon
  containing the other, \<^verbatim>\<open>overlaps\<close> true, intersection and union computed;
  overlapping polygons have positive area) and whose union has a convex hull with an area
  greater than or equal to the sum of the two areas leaves both marks as they were:
  nothing is marked for deletion or for merging, the outcome of comparing a disjoint
  pair. Areas are floats and the sum is the one the machine computes in line 134.
\<close>

theorem C4_hull_guard:
  assumes "\<not> almost_equals g (polygon rp1) (polygon rp2)"
    and "\<not> contains g (polygon rp1) (polygon rp2)"
    and "\<not> contains g (polygon rp2) (polygon rp1)"
    and "overlaps g (polygon rp1) (polygon rp2)"
    and "intersection_area g (polygon rp1) (polygon rp2) = Some inter_area"
    and "union_hull_area g (polygon rp1) (polygon rp2) = Some hull_area"
    and "0 < area g (polygon rp1)" and "0 < area g (polygon rp2)"
    and "hull_area \<ge> area g (polygon rp1) + area g (polygon rp2)"
  shows "compare_regions g min_overlap rp1 rp2 m = Inr m"
proof -
  have "area g (polygon rp1) \<noteq> 0" "area g (polygon rp2) \<noteq> 0"
    using assms(7,8) by auto
  then show ?thesis using assms by (simp add: compare_regions_def Let_def)
qed

theorem C4_hull_guard_witness:
  "overlaps rect_geometry (0, 0, 4, 4) (2, 2, 6, 6) \<and>
   intersection_area rect_geometry (0, 0, 4, 4) (2, 2, 6, 6) = Some 4 \<and>
   union_hull_area rect_geometry (0, 0, 4, 4) (2, 2, 6, 6) = Some 32 \<and>
   area rect_geometry (0, 0, 4, 4) + area rect_geometry (2, 2, 6, 6) = 32 \<and>
   compare_regions rect_geometry (1/10)
     \<lparr>region = \<lparr>obj = 0, rid = ''r1''\<rparr>, polygon = (0, 0, 4, 4)\<rparr>
     \<lparr>region = \<lparr>obj = 1, rid = ''r2''\<rparr>, polygon = (2, 2, 6, 6)\<rparr> ([], Map.empty)
   = Inr ([], Map.empty)"
  using C4_hull_guard [of rect_geometry
     "\<lparr>region = \<lparr>obj = 0, rid = ''r1''\<rparr>, polygon = (0, 0, 4, 4)\<rparr>"
     "\<lparr>region = \<lparr>obj = 1, rid = ''r2''\<rparr>, polygon = (2, 2, 6, 6)\<rparr>" 4 32 "1/10"
     "([], Map.empty)"]
  by (simp add: rect_geometry_def rect_overlaps_def rect_intersection_area_def rect_contains_def
      rect_area_def rect_union_hull_area_def bounding_box_def corner_cut_def)



section \<open>Properties of the vectorisation\<close>

lemma structuring_scale_small: "a < 100 \<Longrightarrow> structuring_scale a = 1"
proof -
  assume a: "a < 100"
  have "real a < 10 * 10" using a by simp
  then have "sqrt (real a) < sqrt (10 * 10)" by (simp only: real_sqrt_less_iff)
  then have "sqrt (real a) < 10" by simp
  then have "sqrt (real a) / 10 < 1" by simp
  moreover have "0 \<le> sqrt (real a) / 10" by simp
  ultimately have "\<lfloor>sqrt (real a) / 10\<rfloor> = 0" by linarith
  then show ?thesis by (simp add: structuring_scale_def)
qed

lemma square_polygon:
  "mask_to_polygon rect_geometry square_imaging square_mask = Inr ((0, 0, 3, 3), 1)"
  by (simp add: mask_to_polygon_def structuring_scale_small square_mask_def square_imaging_def
      eval_nat_numeral rect_geometry_def rect_of_points_def upt_rec)



lemma rect_geometry_sel:
  "area rect_geometry = rect_area"
  "almost_equals rect_geometry = (=)"
  "contains rect_geometry = rect_contains"
  "overlaps rect_geometry = rect_overlaps"
  "intersects rect_geometry = rect_intersects"
  "poly_within rect_geometry a b = rect_contains b a"
  "covers_most rect_geometry a b = (rect_intersection_area a b > 0.8 * rect_area a)"
  "intersection_area rect_geometry a b = Some (rect_intersection_area a b)"
  "union_hull_area rect_geometry a b = Some (rect_union_hull_area a b)"
  "union_exterior rect_geometry a b = (if rect_intersects a b then Some (bounding_box a b) else None)"
  "union_or_hull rect_geometry = bounding_box"
  "buffer rect_geometry (x0, y0, x1, y1) n = (x0 - real n, y0 - real n, x1 + real n, y1 + real n)"
  "simplify rect_geometry r t = r"
  "is_valid rect_geometry (x0, y0, x1, y1) = (x0 < x1 \<and> y0 < y1)"
  "exterior_coords rect_geometry = rect_exterior_coords"
  "Polygon rect_geometry = rect_of_points"
  by (simp_all add: rect_geometry_def)

lemmas ex_defs = classify_page_def process_detections_def find_worse_def enumerate_eq_zip
  masks_overlap_def annotate_region_def square_polygon square_detection_def page_of_line_def
  categories_def new_region_def steal_region_def supersedes_def rect_geometry_sel
  rect_contains_def steal_line_def address_line_def startswith_def fmt02_def decimal.simps
  open_boundary_def rect_exterior_coords_def page_get_reading_order_def add_TextRegion_def
  List.map_filter_simps Let_def bounding_box_def

lemma ex_address:
  "(case classify_page rect_geometry square_imaging [square_detection] [(1, (1, 1, 2, 2))]
           (page_of_line (Some ''subtype: ADDRESS_FULL'')) of
      Inl e \<Rightarrow> False
    | Inr st \<Rightarrow> TextRegions st 0 = [2] \<and>
        ReadingOrder st = Some (Group 0 None [RegionRef 0 ''addressregion01''] [] []) \<and>
        region_id (region_store st 2) = ''addressregion01'' \<and>
        map line_id (TextLine (region_store st 2)) = [''addressregion01_line00''] \<and>
        TextEquiv (region_store st 2) = Some ''Main Street 1'' \<and>
        reading_order st (Some ''r1'') = None \<and>
        reading_order st (Some ''addressregion01'') = Some [RegionRefAt 0])"
  by (simp add: ex_defs)

lemma ex_ghost:
  "(case classify_page rect_geometry square_imaging [square_detection] [(1, (1, 1, 2, 2))]
           (page_of_line (Some ''subtype: OTHER'')) of
      Inl e \<Rightarrow> False
    | Inr st \<Rightarrow> TextRegions st 0 = [] \<and>
        ReadingOrder st = Some (Group 0 None [RegionRef 0 ''addressregion01''] [] []))"
  by (simp add: ex_defs)









section \<open>Properties of the region replacement\<close>

lemma address_line_rename [simp]:
  "address_line (textline\<lparr>line_id := x\<rparr>) = address_line textline"
  by (simp add: address_line_def)








text \<open>
  The test of line 286 is on the prefix alone: a line tagged \<^verbatim>\<open>subtype: ADDRESS_NONE\<close>
  counts as address content for the guard.
\<close>

lemma address_line_ADDRESS_NONE:
  "address_line \<lparr>line_id = i, line_custom = Some ''subtype: ADDRESS_NONE'',
                 line_Unicode = u, line_poly = p\<rparr>"
  by (simp add: address_line_def startswith_def)



end
